theory Spec2Isabelle
  imports Main "HOL-Library.Sublist"
begin

section \<open>The searchable Select component (components/Select)\<close>

text \<open>
  The component keeps three pieces of React state (\<open>query\<close>, \<open>isOpen\<close>,
  \<open>focusedOptionIndex\<close>), derives \<open>filteredOptions\<close> from \<open>query\<close> and the
  \<open>options\<close> property on every render, and changes its state only inside event
  handlers. The embedding below follows the source function by function.

  JavaScript strings are modelled as \<^typ>\<open>string\<close>: a \<^typ>\<open>char\<close> is a UTF-16 code unit
  below 256, that is, a character of the Latin-1 range, \<open>CHR 0xC9\<close> being U+00C9. On
  these \<open>toLowerCase\<close> works character by character and is modelled exactly, and so is
  the regular expression class \<open>\s\<close>. Strings with code units from 256 on have no
  counterpart in the model.
\<close>

subsection \<open>JavaScript values and string primitives\<close>

text \<open>
  \<open>query\<close> normally holds a string, but \<open>filteredOptions[i]\<close> is \<open>undefined\<close> when
  \<open>i\<close> is not an index of the array, and \<open>handleSelectOption\<close> stores what it is given.
\<close>

datatype jsval = Undefined | Str string

datatype error = TypeError

text \<open>
  \<open>String.prototype.toLowerCase\<close>, character by character: the capitals \<open>A\<close> to \<open>Z\<close> and
  the capitals U+00C0 to U+00DE (without the multiplication sign U+00D7) have a lower
  case form; every other character below 256 is its own.
\<close>

definition lowerChar :: "char \<Rightarrow> char" where
  "lowerChar c =
     (case map_of
        (zip (''ABCDEFGHIJKLMNOPQRSTUVWXYZ'' @
              [CHR 0xC0, CHR 0xC1, CHR 0xC2, CHR 0xC3, CHR 0xC4, CHR 0xC5, CHR 0xC6, CHR 0xC7,
               CHR 0xC8, CHR 0xC9, CHR 0xCA, CHR 0xCB, CHR 0xCC, CHR 0xCD, CHR 0xCE, CHR 0xCF,
               CHR 0xD0, CHR 0xD1, CHR 0xD2, CHR 0xD3, CHR 0xD4, CHR 0xD5, CHR 0xD6,
               CHR 0xD8, CHR 0xD9, CHR 0xDA, CHR 0xDB, CHR 0xDC, CHR 0xDD, CHR 0xDE])
             (''abcdefghijklmnopqrstuvwxyz'' @
              [CHR 0xE0, CHR 0xE1, CHR 0xE2, CHR 0xE3, CHR 0xE4, CHR 0xE5, CHR 0xE6, CHR 0xE7,
               CHR 0xE8, CHR 0xE9, CHR 0xEA, CHR 0xEB, CHR 0xEC, CHR 0xED, CHR 0xEE, CHR 0xEF,
               CHR 0xF0, CHR 0xF1, CHR 0xF2, CHR 0xF3, CHR 0xF4, CHR 0xF5, CHR 0xF6,
               CHR 0xF8, CHR 0xF9, CHR 0xFA, CHR 0xFB, CHR 0xFC, CHR 0xFD, CHR 0xFE])) c of
        Some d \<Rightarrow> d
      | None \<Rightarrow> c)"

definition toLowerCase :: "string \<Rightarrow> string" where
  "toLowerCase s = map lowerChar s"

text \<open>
  The class \<open>\s\<close> below 256: tab, line feed, vertical tab, form feed, carriage return,
  space and the no-break space U+00A0.
\<close>

definition isSpace :: "char \<Rightarrow> bool" where
  "isSpace c =
     (c \<in> set [CHR 0x09, CHR 0x0A, CHR 0x0B, CHR 0x0C, CHR 0x0D, CHR 0x20, CHR 0xA0])"

text \<open>
  \<open>s.replace(/\s+/g, "")\<close>: scanning from the left, every maximal run of blanks is a
  match and is replaced by the empty string; every other character is copied.
\<close>

function replaceSpaces :: "string \<Rightarrow> string" where
  "replaceSpaces [] = []"
| "replaceSpaces (c # cs) =
     (if isSpace c then replaceSpaces (dropWhile isSpace cs) else c # replaceSpaces cs)"
  by pat_completeness auto
termination
  by (relation "measure length") (auto simp: length_dropWhile_le less_Suc_eq_le)

text \<open>
  \<open>s.includes(t)\<close>: the search string is compared with \<open>s\<close> at position 0, then 1, and
  so on to the end of \<open>s\<close>; \<open>startsWithAt t s\<close> is the comparison at one position.
\<close>

fun startsWithAt :: "string \<Rightarrow> string \<Rightarrow> bool" where
  "startsWithAt [] s = True"
| "startsWithAt (x # xs) [] = False"
| "startsWithAt (x # xs) (y # ys) = (x = y \<and> startsWithAt xs ys)"

fun includes_js :: "string \<Rightarrow> string \<Rightarrow> bool" where
  "includes_js [] t = startsWithAt t []"
| "includes_js (c # cs) t = (startsWithAt t (c # cs) \<or> includes_js cs t)"

subsection \<open>The derived list of options\<close>

text \<open>
  \<open>filteredOptions\<close> (evaluated on every render). With a string query the callback of
  \<open>filter\<close> never fails. With \<open>query = undefined\<close> the test \<open>query === ""\<close> is false, and
  the callback evaluates \<open>query.toLowerCase()\<close>, a \<open>TypeError\<close>, as soon as it is called,
  that is, unless \<open>options\<close> is empty.
\<close>

definition optionMatches :: "string \<Rightarrow> string \<Rightarrow> bool" where
  "optionMatches q opt =
     includes_js (replaceSpaces (toLowerCase opt)) (replaceSpaces (toLowerCase q))"

definition filteredOptions :: "string list \<Rightarrow> jsval \<Rightarrow> error + string list" where
  "filteredOptions opts q =
     (case q of
        Str t \<Rightarrow> if t = [] then Inr opts else Inr (filter (optionMatches t) opts)
      | Undefined \<Rightarrow> if opts = [] then Inr [] else Inl TypeError)"

text \<open>
  The specification's words: the normalized form of a string is the string in lower case
  with its whitespace removed. Both notions are stated here on their own, by code point:
  whitespace is U+0009 to U+000D, U+0020 and U+00A0, and the lower case form of a capital
  (U+0041 to U+005A, and U+00C0 to U+00DE without U+00D7) is the character 32 code points
  above it.
\<close>

definition whitespace :: "char \<Rightarrow> bool" where
  "whitespace c = (let n = (of_char c :: nat) in (9 \<le> n \<and> n \<le> 13) \<or> n = 32 \<or> n = 160)"

definition lowercase :: "char \<Rightarrow> char" where
  "lowercase c =
     (let n = (of_char c :: nat)
      in if (65 \<le> n \<and> n \<le> 90) \<or> (192 \<le> n \<and> n \<le> 222 \<and> n \<noteq> 215)
         then char_of (n + 32) else c)"

definition normalized :: "string \<Rightarrow> string" where
  "normalized s = filter (\<lambda>c. \<not> whitespace c) (map lowercase s)"

subsection \<open>Properties, state and the state setters\<close>

text \<open>The properties the host passes to the component (\<open>onSelect\<close> is modelled below).\<close>

record props =
  options :: "string list"
  disabled :: bool
  placeholder :: string
  notfound :: string

text \<open>
  The three \<open>useState\<close> cells, and the trace of the calls of the \<open>onSelect\<close> callback
  made so far (oldest first), which stands for the callback's effect on the host.
\<close>

record state =
  query :: jsval
  isOpen :: bool
  focusedOptionIndex :: int
  onSelectCalls :: "jsval list"

definition initial :: state where
  "initial = \<lparr>query = Str [], isOpen = False, focusedOptionIndex = 0, onSelectCalls = []\<rparr>"

text \<open>
  A handler is a closure of the render that created it: what it \<^emph>\<open>reads\<close> (\<open>isOpen\<close>,
  \<open>focusedOptionIndex\<close>, \<open>filteredOptions\<close>) are the values of that render, written \<open>r\<close>
  and \<open>fo\<close> below, and what it \<^emph>\<open>does\<close> is a sequence of setter calls, applied in order
  to the state. \<open>setFocusedOptionIndex\<close> takes an updater function, as in the source's
  \<open>(prevIndex) => prevIndex + 1\<close>; a plain value \<open>v\<close> is the updater \<open>\<lambda>_. v\<close>.
\<close>

definition setQuery :: "jsval \<Rightarrow> state \<Rightarrow> state" where
  "setQuery v s = s\<lparr>query := v\<rparr>"

definition setIsOpen :: "bool \<Rightarrow> state \<Rightarrow> state" where
  "setIsOpen b s = s\<lparr>isOpen := b\<rparr>"

definition setFocusedOptionIndex :: "(int \<Rightarrow> int) \<Rightarrow> state \<Rightarrow> state" where
  "setFocusedOptionIndex f s = s\<lparr>focusedOptionIndex := f (focusedOptionIndex s)\<rparr>"

definition onSelect :: "jsval \<Rightarrow> state \<Rightarrow> state" where
  "onSelect v s = s\<lparr>onSelectCalls := onSelectCalls s @ [v]\<rparr>"

text \<open>\<open>inputRef.current.focus()\<close>: the input has no focus handler, so no state changes.\<close>

definition focusInput :: "state \<Rightarrow> state" where
  "focusInput s = s"

text \<open>The statements of a handler body, run in order.\<close>

definition batch :: "(state \<Rightarrow> state) list \<Rightarrow> state \<Rightarrow> state" where
  "batch us s = fold (\<lambda>u. u) us s"

text \<open>\<open>filteredOptions[i]\<close>: \<open>undefined\<close> outside the array.\<close>

definition elementAt :: "string list \<Rightarrow> int \<Rightarrow> jsval" where
  "elementAt fo i = (if 0 \<le> i \<and> i < int (length fo) then Str (fo ! nat i) else Undefined)"

subsection \<open>The handlers\<close>

definition handleToggleDropdown :: "state \<Rightarrow> state \<Rightarrow> state" where
  "handleToggleDropdown r =
     batch [setIsOpen (\<not> isOpen r),
            if \<not> isOpen r then focusInput else setFocusedOptionIndex (\<lambda>_. 0)]"

definition handleInputChange :: "state \<Rightarrow> string \<Rightarrow> state \<Rightarrow> state" where
  "handleInputChange r v =
     batch [if \<not> isOpen r then handleToggleDropdown r else id,
            setQuery (Str v),
            setFocusedOptionIndex (\<lambda>_. 0)]"

definition handleSelectOption :: "jsval \<Rightarrow> state \<Rightarrow> state" where
  "handleSelectOption opt = batch [setQuery opt, setIsOpen False, onSelect opt]"

definition clearInput :: "state \<Rightarrow> state" where
  "clearInput = batch [setQuery (Str []), setIsOpen False, setFocusedOptionIndex (\<lambda>_. 0)]"

definition handleEscapeKey :: "string \<Rightarrow> state \<Rightarrow> state" where
  "handleEscapeKey k = (if k = ''Escape'' then clearInput else id)"

text \<open>
  \<open>focusedOptionIndex !== null\<close> holds of every number, so the \<open>Enter\<close> branch has no
  further condition.
\<close>

definition handleKeyDown :: "state \<Rightarrow> string list \<Rightarrow> string \<Rightarrow> state \<Rightarrow> state" where
  "handleKeyDown r fo k =
     (if isOpen r then
        if k = ''ArrowDown'' \<and> focusedOptionIndex r < int (length fo) - 1
        then setFocusedOptionIndex (\<lambda>prevIndex. prevIndex + 1)
        else if k = ''ArrowUp'' \<and> focusedOptionIndex r > 0
        then setFocusedOptionIndex (\<lambda>prevIndex. prevIndex - 1)
        else if k = ''Enter''
        then handleSelectOption (elementAt fo (focusedOptionIndex r))
        else id
      else id)"

definition handleOptionClick :: "string list \<Rightarrow> nat \<Rightarrow> state \<Rightarrow> state" where
  "handleOptionClick fo index =
     batch [setFocusedOptionIndex (\<lambda>_. int index),
            handleSelectOption (elementAt fo (int index))]"

text \<open>
  Where a click lands: on the input, on the list item with \<open>data-index = i\<close>, elsewhere
  inside the panel, or outside both.
\<close>

datatype target = Input | Option nat | Panel | Outside

definition inInput :: "target \<Rightarrow> bool" where
  "inInput t = (t = Input)"

definition inPanel :: "target \<Rightarrow> bool" where
  "inPanel t = (case t of Option i \<Rightarrow> True | Panel \<Rightarrow> True | Input \<Rightarrow> False | Outside \<Rightarrow> False)"

text \<open>
  \<open>handleClickOutside\<close> reads the two refs when it runs. \<open>inputRef.current\<close> is the input,
  which is always mounted; \<open>dropdownRef.current\<close> is the panel when one is mounted and
  \<open>null\<close> otherwise.
\<close>

definition handleClickOutside :: "bool \<Rightarrow> target \<Rightarrow> state \<Rightarrow> state" where
  "handleClickOutside panelMounted t =
     (if \<not> inInput t \<and> panelMounted \<and> \<not> inPanel t then clearInput else id)"

subsection \<open>What is rendered\<close>

datatype panel = NotFound string | Options "string list"

definition panel :: "props \<Rightarrow> string list \<Rightarrow> state \<Rightarrow> panel option" where
  "panel p fo s =
     (if isOpen s
      then Some (if length fo = 0 \<and> query s \<noteq> Str [] then NotFound (notfound p)
                 else Options fo)
      else None)"

text \<open>A render evaluates \<open>filteredOptions\<close> first; an exception there ends the component.\<close>

definition render :: "props \<Rightarrow> state \<Rightarrow> error + panel option" where
  "render p s =
     (case filteredOptions (options p) (query s) of
        Inl e \<Rightarrow> Inl e
      | Inr fo \<Rightarrow> Inr (panel p fo s))"

subsection \<open>Events\<close>

text \<open>
  \<open>Change v\<close>: the input's \<open>onChange\<close> with \<open>event.target.value = v\<close>. \<open>Click t\<close>: a mouse
  click on \<open>t\<close>. \<open>KeyDown k\<close>: a key press with \<open>e.key = k\<close>, anywhere in the window.
  \<open>Focus\<close>: the input gains focus.

  The handlers attached in the JSX run first: \<open>onChange\<close> and \<open>onClick\<close> of the input,
  which an input with the \<open>disabled\<close> attribute does not receive, and \<open>onClick\<close> of a list
  item, which exists only while the option list is rendered. No handler is attached for
  focus.
\<close>

datatype event = Change string | Click target | KeyDown string | Focus

definition elementHandlers :: "props \<Rightarrow> string list \<Rightarrow> state \<Rightarrow> event \<Rightarrow> state \<Rightarrow> state" where
  "elementHandlers p fo r ev =
     (case ev of
        Change v \<Rightarrow> if disabled p then id else handleInputChange r v
      | Click t \<Rightarrow>
          (case t of
             Input \<Rightarrow> if disabled p then id else handleToggleDropdown r
           | Option i \<Rightarrow>
               if panel p fo r = Some (Options fo) \<and> i < length fo
               then handleOptionClick fo i else id
           | Panel \<Rightarrow> id
           | Outside \<Rightarrow> id)
      | KeyDown k \<Rightarrow> id
      | Focus \<Rightarrow> id)"

text \<open>
  Then the listeners of the second effect run, on the window: \<open>handleClickOutside\<close> for a
  click, after the state change of the element's handler is committed (so the panel is
  mounted exactly when the new state is open); \<open>handleEscapeKey\<close> and then \<open>handleKeyDown\<close>
  for a key press.
\<close>

definition step :: "props \<Rightarrow> string list \<Rightarrow> state \<Rightarrow> event \<Rightarrow> state" where
  "step p fo r ev =
     (case ev of
        Click t \<Rightarrow>
          (let s1 = elementHandlers p fo r ev r in handleClickOutside (isOpen s1) t s1)
      | KeyDown k \<Rightarrow> batch [handleEscapeKey k, handleKeyDown r fo k] r
      | Change v \<Rightarrow> elementHandlers p fo r ev r
      | Focus \<Rightarrow> elementHandlers p fo r ev r)"

text \<open>
  An event is handled by the closures of the current render (the effect registers the
  window listeners anew whenever \<open>isOpen\<close>, \<open>focusedOptionIndex\<close> or \<open>filteredOptions\<close>
  has changed), so there must be one: if rendering the state raises, the component is
  gone and the error is the result.
\<close>

definition dispatch :: "props \<Rightarrow> state \<Rightarrow> event \<Rightarrow> error + state" where
  "dispatch p s ev =
     (case filteredOptions (options p) (query s) of
        Inl e \<Rightarrow> Inl e
      | Inr fo \<Rightarrow> Inr (step p fo s ev))"

fun run :: "props \<Rightarrow> state \<Rightarrow> event list \<Rightarrow> error + state" where
  "run p s [] = Inr s"
| "run p s (ev # evs) = (case dispatch p s ev of Inl e \<Rightarrow> Inl e | Inr s' \<Rightarrow> run p s' evs)"

text \<open>The invariant of the specification.\<close>

definition focusInRange :: "string list \<Rightarrow> state \<Rightarrow> bool" where
  "focusInRange fo s =
     (0 \<le> focusedOptionIndex s \<and> focusedOptionIndex s < max 1 (int (length fo)))"

text \<open>The properties of the scenarios.\<close>

definition abc :: props where
  "abc = \<lparr>options = [''A'', ''B'', ''C''], disabled = False, placeholder = [],
          notfound = ''notfound''\<rparr>"

definition kerala :: props where
  "kerala = \<lparr>options = [''Kerala''], disabled = False, placeholder = [],
             notfound = ''notfound''\<rparr>"

definition districts :: props where
  "districts = \<lparr>options = [''Kerala'', ''Kochi'', ''Kottayam''], disabled = False,
                placeholder = [], notfound = ''notfound''\<rparr>"

definition off :: props where
  "off = \<lparr>options = [''A'', ''B'', ''C''], disabled = True, placeholder = [],
          notfound = ''notfound''\<rparr>"

section \<open>Filtering\<close>

lemma dropWhile_filter_not:
  "filter (\<lambda>c. \<not> P c) (dropWhile P cs) = filter (\<lambda>c. \<not> P c) cs"
  by (induction cs) auto

lemma replaceSpaces_filter: "replaceSpaces s = filter (\<lambda>c. \<not> isSpace c) s"
  by (induction s rule: replaceSpaces.induct) (auto simp: dropWhile_filter_not)

lemma startsWithAt_prefix: "startsWithAt t s \<longleftrightarrow> prefix t s"
  by (induction t s rule: startsWithAt.induct) auto

lemma includes_sublist: "includes_js s t \<longleftrightarrow> sublist t s"
  by (induction s) (auto simp: startsWithAt_prefix sublist_Cons_right)

text \<open>
  The model of the two built-ins agrees with the specification's notions on every
  character: a check of all 256 of them.
\<close>

lemma isSpace_whitespace: "isSpace c = whitespace c"
  by (cases c) (simp add: isSpace_def whitespace_def; fastforce)

lemma lowerChar_lowercase: "lowerChar c = lowercase c"
proof (cases c)
  case (Char b0 b1 b2 b3 b4 b5 b6 b7)
  then show ?thesis
    by (cases b0; cases b1; cases b2; cases b3; cases b4; cases b5; cases b6; cases b7)
      (simp_all add: lowerChar_def lowercase_def char_of_def bit_Suc_0_iff)
qed

lemma replaceSpaces_toLowerCase: "replaceSpaces (toLowerCase s) = normalized s"
proof -
  have "lowerChar = lowercase"
    by (rule ext) (rule lowerChar_lowercase)
  moreover have "isSpace = whitespace"
    by (rule ext) (rule isSpace_whitespace)
  ultimately show ?thesis
    by (simp add: normalized_def toLowerCase_def replaceSpaces_filter)
qed

lemma optionMatches_normalized:
  "optionMatches q = (\<lambda>opt. sublist (normalized q) (normalized opt))"
  by (rule ext) (simp add: optionMatches_def replaceSpaces_toLowerCase includes_sublist)

lemma filteredOptions_subseq:
  assumes "filteredOptions L (Str q) = Inr fo"
  shows "subseq fo L"
  using assms by (auto simp: filteredOptions_def split: if_splits)

text \<open>
  C1. For every option list \<open>L\<close> and every query string \<open>q\<close>, the derived list is \<open>L\<close>
  itself when \<open>q\<close> is empty, and otherwise consists of exactly the elements of \<open>L\<close> whose
  normalized form contains the normalized form of \<open>q\<close> as a contiguous substring, in the
  order of \<open>L\<close> (which is what \<^const>\<open>filter\<close> returns).
\<close>

theorem filteredOptions_spec:
  "filteredOptions L (Str q) =
     Inr (if q = [] then L
          else filter (\<lambda>opt. sublist (normalized q) (normalized opt)) L)"
  by (simp add: filteredOptions_def optionMatches_normalized)

theorem filteredOptions_spec_witness:
  "Inr (if ''T t'' = [] then [''Kerala'', ''Kochi'', ''Kot Tayam'']
        else filter (\<lambda>opt. sublist (normalized ''T t'') (normalized opt))
               [''Kerala'', ''Kochi'', ''Kot Tayam''])
     = (Inr [''Kot Tayam''] :: error + string list)
   \<and> Inr (if ''ab'' = [] then [[CHR ''A'', CHR 0xA0, CHR ''B''], [CHR 0xC9]]
          else filter (\<lambda>opt. sublist (normalized ''ab'') (normalized opt))
                 [[CHR ''A'', CHR 0xA0, CHR ''B''], [CHR 0xC9]])
     = (Inr [[CHR ''A'', CHR 0xA0, CHR ''B'']] :: error + string list)
   \<and> Inr (if [CHR 0xE9] = [] then [[CHR ''A'', CHR 0xA0, CHR ''B''], [CHR 0xC9]]
          else filter (\<lambda>opt. sublist (normalized [CHR 0xE9]) (normalized opt))
                 [[CHR ''A'', CHR 0xA0, CHR ''B''], [CHR 0xC9]])
     = (Inr [[CHR 0xC9]] :: error + string list)"
proof -
  have 1: "filteredOptions [''Kerala'', ''Kochi'', ''Kot Tayam''] (Str ''T t'')
        = Inr [''Kot Tayam'']"
    by (simp add: filteredOptions_def optionMatches_def toLowerCase_def lowerChar_def
        isSpace_def)
  have 2: "filteredOptions [[CHR ''A'', CHR 0xA0, CHR ''B''], [CHR 0xC9]] (Str ''ab'')
        = Inr [[CHR ''A'', CHR 0xA0, CHR ''B'']]"
    by (simp add: filteredOptions_def optionMatches_def toLowerCase_def lowerChar_def
        isSpace_def)
  have 3: "filteredOptions [[CHR ''A'', CHR 0xA0, CHR ''B''], [CHR 0xC9]] (Str [CHR 0xE9])
        = Inr [[CHR 0xC9]]"
    by (simp add: filteredOptions_def optionMatches_def toLowerCase_def lowerChar_def
        isSpace_def)
  from 1 2 3
    filteredOptions_spec [of "[''Kerala'', ''Kochi'', ''Kot Tayam'']" "''T t''"]
    filteredOptions_spec [of "[[CHR ''A'', CHR 0xA0, CHR ''B''], [CHR 0xC9]]" "''ab''"]
    filteredOptions_spec [of "[[CHR ''A'', CHR 0xA0, CHR ''B''], [CHR 0xC9]]" "[CHR 0xE9]"]
  show ?thesis by (simp only:)
qed

section \<open>Single events\<close>

lemmas setter_defs = batch_def setQuery_def setIsOpen_def setFocusedOptionIndex_def
  onSelect_def focusInput_def

lemmas handler_defs = handleToggleDropdown_def handleInputChange_def handleSelectOption_def
  clearInput_def handleEscapeKey_def handleKeyDown_def handleOptionClick_def
  handleClickOutside_def inInput_def inPanel_def

text \<open>
  What each event does to a state \<open>s\<close> whose render succeeded with the filtered list
  \<open>fo\<close>. The other lemmas of this theory rest on these.
\<close>

lemma dispatch_Change:
  assumes "filteredOptions (options p) (query s) = Inr fo" and "\<not> disabled p"
  shows "dispatch p s (Change v) =
           Inr (s\<lparr>query := Str v, isOpen := True, focusedOptionIndex := 0\<rparr>)"
  using assms
  by (cases "isOpen s")
    (simp_all add: dispatch_def step_def elementHandlers_def handler_defs setter_defs)

lemma dispatch_Click_Input:
  assumes "filteredOptions (options p) (query s) = Inr fo" and "\<not> disabled p"
  shows "dispatch p s (Click Input) =
           Inr (if isOpen s then s\<lparr>isOpen := False, focusedOptionIndex := 0\<rparr>
                else s\<lparr>isOpen := True\<rparr>)"
  using assms
  by (simp add: dispatch_def step_def elementHandlers_def handler_defs setter_defs)

lemma dispatch_Escape:
  assumes "filteredOptions (options p) (query s) = Inr fo"
  shows "dispatch p s (KeyDown ''Escape'') =
           Inr (s\<lparr>query := Str [], isOpen := False, focusedOptionIndex := 0\<rparr>)"
  using assms
  by (simp add: dispatch_def step_def elementHandlers_def handler_defs setter_defs)

lemma dispatch_Click_Outside:
  assumes "filteredOptions (options p) (query s) = Inr fo"
  shows "dispatch p s (Click Outside) =
           Inr (if isOpen s
                then s\<lparr>query := Str [], isOpen := False, focusedOptionIndex := 0\<rparr>
                else s)"
  using assms
  by (simp add: dispatch_def step_def elementHandlers_def handler_defs setter_defs)

lemma dispatch_ArrowDown:
  assumes "filteredOptions (options p) (query s) = Inr fo"
  shows "dispatch p s (KeyDown ''ArrowDown'') =
           Inr (if isOpen s \<and> focusedOptionIndex s < int (length fo) - 1
                then s\<lparr>focusedOptionIndex := focusedOptionIndex s + 1\<rparr> else s)"
  using assms
  by (simp add: dispatch_def step_def elementHandlers_def handler_defs setter_defs)

lemma dispatch_ArrowUp:
  assumes "filteredOptions (options p) (query s) = Inr fo"
  shows "dispatch p s (KeyDown ''ArrowUp'') =
           Inr (if isOpen s \<and> focusedOptionIndex s > 0
                then s\<lparr>focusedOptionIndex := focusedOptionIndex s - 1\<rparr> else s)"
  using assms
  by (simp add: dispatch_def step_def elementHandlers_def handler_defs setter_defs)

lemma dispatch_Enter:
  assumes "filteredOptions (options p) (query s) = Inr fo"
  shows "dispatch p s (KeyDown ''Enter'') =
           Inr (if isOpen s
                then s\<lparr>query := elementAt fo (focusedOptionIndex s), isOpen := False,
                       onSelectCalls :=
                         onSelectCalls s @ [elementAt fo (focusedOptionIndex s)]\<rparr>
                else s)"
  using assms
  by (simp add: dispatch_def step_def elementHandlers_def handler_defs setter_defs)

lemma dispatch_Click_Option:
  assumes "filteredOptions (options p) (query s) = Inr fo"
    and "isOpen s" and "i < length fo"
  shows "dispatch p s (Click (Option i)) =
           Inr (s\<lparr>focusedOptionIndex := int i, query := Str (fo ! i), isOpen := False,
                  onSelectCalls := onSelectCalls s @ [Str (fo ! i)]\<rparr>)"
  using assms
  by (auto simp add: dispatch_def step_def elementHandlers_def handler_defs setter_defs
      panel_def elementAt_def)

lemma dispatch_other_key:
  assumes "filteredOptions (options p) (query s) = Inr fo"
    and "k \<noteq> ''Escape''" and "k \<noteq> ''ArrowDown''" and "k \<noteq> ''ArrowUp''" and "k \<noteq> ''Enter''"
  shows "dispatch p s (KeyDown k) = Inr s"
  using assms
  by (simp add: dispatch_def step_def handler_defs setter_defs)

lemma dispatch_Click_Panel:
  assumes "filteredOptions (options p) (query s) = Inr fo"
  shows "dispatch p s (Click Panel) = Inr s"
  using assms
  by (simp add: dispatch_def step_def elementHandlers_def handler_defs setter_defs)

lemma dispatch_Focus:
  assumes "filteredOptions (options p) (query s) = Inr fo"
  shows "dispatch p s Focus = Inr s"
  using assms
  by (simp add: dispatch_def step_def elementHandlers_def)

lemma dispatch_disabled_input:
  assumes "filteredOptions (options p) (query s) = Inr fo" and "disabled p"
  shows "dispatch p s (Change v) = Inr s" and "dispatch p s (Click Input) = Inr s"
  using assms
  by (simp_all add: dispatch_def step_def elementHandlers_def handler_defs setter_defs)

text \<open>The filtered lists of the scenarios.\<close>

lemma filteredOptions_abc_empty:
  "filteredOptions (options abc) (Str []) = Inr [''A'', ''B'', ''C'']"
  by (simp add: filteredOptions_def abc_def)

lemma filteredOptions_abc_C: "filteredOptions (options abc) (Str ''C'') = Inr [''C'']"
  by (simp add: filteredOptions_def abc_def optionMatches_def toLowerCase_def lowerChar_def
      isSpace_def)

lemma filteredOptions_kerala_xyz: "filteredOptions (options kerala) (Str ''xyz'') = Inr []"
  by (simp add: filteredOptions_def kerala_def optionMatches_def toLowerCase_def
      lowerChar_def isSpace_def)

section \<open>Open states that can be reached\<close>

text \<open>
  A state reached from the initial one that is open belongs to a component whose input
  is enabled and whose render succeeds: only a click on the enabled input or typing
  opens the dropdown, and neither stores \<open>undefined\<close> in \<open>query\<close>.
\<close>

lemma step_open_live:
  assumes "filteredOptions (options p) (query s) = Inr fo"
    and "isOpen (step p fo s ev)"
    and "isOpen s \<Longrightarrow> \<not> disabled p"
  shows "\<not> disabled p \<and> \<not> isl (filteredOptions (options p) (query (step p fo s ev)))"
proof (cases ev)
  case (Change v)
  with assms show ?thesis
    by (cases "isOpen s"; cases "disabled p")
      (simp_all add: step_def elementHandlers_def handler_defs setter_defs
        filteredOptions_def)
next
  case (Click t)
  with assms show ?thesis
    by (cases t; cases "isOpen s"; cases "disabled p")
      (simp_all add: step_def elementHandlers_def handler_defs setter_defs panel_def
        split: if_splits)
next
  case (KeyDown k)
  with assms show ?thesis
    by (cases "isOpen s")
      (simp_all add: step_def elementHandlers_def handler_defs setter_defs split: if_splits)
next
  case Focus
  with assms show ?thesis
    by (simp add: step_def elementHandlers_def)
qed

lemma run_open_live:
  assumes "run p s evs = Inr s'" and "isOpen s'"
    and "isOpen s \<Longrightarrow> \<not> disabled p \<and> \<not> isl (filteredOptions (options p) (query s))"
  shows "\<not> disabled p \<and> \<not> isl (filteredOptions (options p) (query s'))"
  using assms
proof (induction evs arbitrary: s)
  case Nil
  then show ?case by simp
next
  case (Cons ev evs)
  from Cons.prems(1) obtain fo where fo: "filteredOptions (options p) (query s) = Inr fo"
    and r: "run p (step p fo s ev) evs = Inr s'"
    by (auto simp: dispatch_def split: sum.splits)
  have "isOpen (step p fo s ev) \<Longrightarrow>
        \<not> disabled p \<and> \<not> isl (filteredOptions (options p) (query (step p fo s ev)))"
    using step_open_live [OF fo] Cons.prems(3) by blast
  with Cons.IH [OF r Cons.prems(2)] show ?case by blast
qed

lemma reachable_open_live:
  assumes "run p initial evs = Inr s" and "isOpen s"
  shows "\<not> disabled p \<and> (\<exists>fo. filteredOptions (options p) (query s) = Inr fo)"
proof -
  have "\<not> disabled p \<and> \<not> isl (filteredOptions (options p) (query s))"
    using run_open_live [OF assms] by (simp add: initial_def)
  then show ?thesis by (cases "filteredOptions (options p) (query s)") auto
qed

section \<open>Selecting an option\<close>

text \<open>
  When the focused index, or the clicked index, is an index of the filtered list, a
  selection stores that option's text in \<open>query\<close>, closes the dropdown and calls
  \<open>onSelect\<close> once with that text.
\<close>

lemma selection_in_range:
  assumes "isOpen s" and "filteredOptions (options p) (query s) = Inr fo"
  shows "0 \<le> focusedOptionIndex s \<and> focusedOptionIndex s < int (length fo) \<longrightarrow>
           dispatch p s (KeyDown ''Enter'') =
             Inr (s\<lparr>query := Str (fo ! nat (focusedOptionIndex s)), isOpen := False,
                    onSelectCalls :=
                      onSelectCalls s @ [Str (fo ! nat (focusedOptionIndex s))]\<rparr>)"
    and "i < length fo \<longrightarrow>
           dispatch p s (Click (Option i)) =
             Inr (s\<lparr>focusedOptionIndex := int i, query := Str (fo ! i), isOpen := False,
                    onSelectCalls := onSelectCalls s @ [Str (fo ! i)]\<rparr>)"
  using assms dispatch_Enter [OF assms(2)] dispatch_Click_Option [OF assms(2) assms(1)]
  by (simp_all add: elementAt_def)

text \<open>
  Outside that range \<open>Enter\<close> still closes the dropdown and still calls \<open>onSelect\<close>, with
  \<open>undefined\<close>, which it also stores in \<open>query\<close>.
\<close>

lemma selection_out_of_range:
  assumes "isOpen s" and "filteredOptions (options p) (query s) = Inr fo"
    and "int (length fo) \<le> focusedOptionIndex s"
  shows "dispatch p s (KeyDown ''Enter'') =
           Inr (s\<lparr>query := Undefined, isOpen := False,
                  onSelectCalls := onSelectCalls s @ [Undefined]\<rparr>)"
  using assms dispatch_Enter [OF assms(2)] by (simp add: elementAt_def)

text \<open>
  C2. Confirming a selection in an open state with a non-empty filtered list does not
  always commit an option. After choosing \<open>C\<close> from \<open>A, B, C\<close> with the arrow keys and
  \<open>Enter\<close>, a click on the input reopens the dropdown with \<open>query = C\<close>, the filtered
  list \<open>[C]\<close> rendered, and the focused index still 2. \<open>Enter\<close> in that state stores
  \<open>undefined\<close> in \<open>query\<close> and calls \<open>onSelect\<close> with \<open>undefined\<close>.
\<close>

theorem enter_with_stale_focus:
  "run abc initial
     [Click Input, KeyDown ''ArrowDown'', KeyDown ''ArrowDown'', KeyDown ''Enter'',
      Click Input] =
   Inr \<lparr>query = Str ''C'', isOpen = True, focusedOptionIndex = 2,
        onSelectCalls = [Str ''C'']\<rparr>
   \<and> render abc \<lparr>query = Str ''C'', isOpen = True, focusedOptionIndex = 2,
                   onSelectCalls = [Str ''C'']\<rparr> = Inr (Some (Options [''C'']))
   \<and> dispatch abc \<lparr>query = Str ''C'', isOpen = True, focusedOptionIndex = 2,
                     onSelectCalls = [Str ''C'']\<rparr> (KeyDown ''Enter'') =
       Inr \<lparr>query = Undefined, isOpen = False, focusedOptionIndex = 2,
            onSelectCalls = [Str ''C'', Undefined]\<rparr>"
  by (simp add: initial_def dispatch_def filteredOptions_abc_empty filteredOptions_abc_C
      step_def elementHandlers_def handler_defs setter_defs elementAt_def render_def
      panel_def)
    (simp add: abc_def)

section \<open>The focused index\<close>

text \<open>
  Every event other than a selection keeps the focused index in range while the dropdown
  is open and at 0 while it is closed.
\<close>

lemma focus_in_range_preserved:
  assumes d: "dispatch p s ev = Inr s'"
    and f: "filteredOptions (options p) (query s) = Inr fo"
    and f': "filteredOptions (options p) (query s') = Inr fo'"
    and ne: "ev \<noteq> KeyDown ''Enter''" and nc: "\<And>i. ev \<noteq> Click (Option i)"
    and inv: "if isOpen s then focusInRange fo s else focusedOptionIndex s = 0"
  shows "if isOpen s' then focusInRange fo' s' else focusedOptionIndex s' = 0"
proof -
  have same: "fo' = fo" if "query s' = query s"
    using that f f' by simp
  have keep: ?thesis if "s' = s"
    using that inv same by simp
  show ?thesis
  proof (cases ev)
    case (Change v)
    show ?thesis
    proof (cases "disabled p")
      case True
      with d Change dispatch_disabled_input(1) [OF f] keep show ?thesis by simp
    next
      case False
      with d Change dispatch_Change [OF f] show ?thesis
        by (auto simp: focusInRange_def)
    qed
  next
    case (Click t)
    show ?thesis
    proof (cases t)
      case Input
      show ?thesis
      proof (cases "disabled p")
        case True
        with d Click Input dispatch_disabled_input(2) [OF f] keep show ?thesis by simp
      next
        case False
        with d Click Input dispatch_Click_Input [OF f] inv show ?thesis
          by (cases "isOpen s") (auto simp: focusInRange_def)
      qed
    next
      case (Option i)
      with Click nc show ?thesis by simp
    next
      case Panel
      with d Click dispatch_Click_Panel [OF f] keep show ?thesis by simp
    next
      case Outside
      with d Click dispatch_Click_Outside [OF f] keep show ?thesis
        by (cases "isOpen s") auto
    qed
  next
    case (KeyDown k)
    consider "k = ''Escape''" | "k = ''ArrowDown''" | "k = ''ArrowUp''"
      | "k \<noteq> ''Escape''" "k \<noteq> ''ArrowDown''" "k \<noteq> ''ArrowUp''" "k \<noteq> ''Enter''"
      using ne KeyDown by blast
    then show ?thesis
    proof cases
      case 1
      with d KeyDown dispatch_Escape [OF f] show ?thesis by auto
    next
      case 2
      with d KeyDown dispatch_ArrowDown [OF f] have
        s': "s' = (if isOpen s \<and> focusedOptionIndex s < int (length fo) - 1
                then s\<lparr>focusedOptionIndex := focusedOptionIndex s + 1\<rparr> else s)"
        by simp
      then have "query s' = query s" by simp
      from same [OF this] s' inv show ?thesis
        by (auto simp: focusInRange_def split: if_splits)
    next
      case 3
      with d KeyDown dispatch_ArrowUp [OF f] have
        s': "s' = (if isOpen s \<and> focusedOptionIndex s > 0
                then s\<lparr>focusedOptionIndex := focusedOptionIndex s - 1\<rparr> else s)"
        by simp
      then have "query s' = query s" by simp
      from same [OF this] s' inv show ?thesis
        by (auto simp: focusInRange_def split: if_splits)
    next
      case 4
      with d KeyDown dispatch_other_key [OF f] keep show ?thesis by simp
    qed
  next
    case Focus
    with d dispatch_Focus [OF f] keep show ?thesis by simp
  qed
qed

text \<open>
  C3. The invariant \<open>0 \<le> FocusedIndex < max(1, len(FilteredOptions))\<close> does not hold in
  every open state that user events reach: \<open>handleSelectOption\<close> closes the dropdown
  without resetting the focused index, so after selecting the third of \<open>A, B, C\<close> and
  clicking the input the dropdown is open with focused index 2 over the filtered list
  \<open>[C]\<close>.
\<close>

theorem stale_focus_after_selection:
  "run abc initial
     [Click Input, KeyDown ''ArrowDown'', KeyDown ''ArrowDown'', KeyDown ''Enter'',
      Click Input] =
   Inr \<lparr>query = Str ''C'', isOpen = True, focusedOptionIndex = 2,
        onSelectCalls = [Str ''C'']\<rparr>
   \<and> filteredOptions (options abc) (Str ''C'') = Inr [''C'']
   \<and> focusInRange [''C'']
        \<lparr>query = Str ''C'', isOpen = True, focusedOptionIndex = 2,
         onSelectCalls = [Str ''C'']\<rparr> = False"
  by (simp add: initial_def dispatch_def filteredOptions_abc_empty filteredOptions_abc_C
      step_def elementHandlers_def handler_defs setter_defs elementAt_def focusInRange_def)
    (simp add: abc_def)

section \<open>Dismissing the dropdown\<close>

text \<open>
  C4. In every open state (of a component whose render succeeded), a press of \<open>Escape\<close>
  and a click outside both the input and the panel each lead to the state with \<open>query\<close>
  empty, the dropdown closed and the focused index 0; the trace of \<open>onSelect\<close> calls is
  the one before the event, so \<open>onSelect\<close> is not called.
\<close>

theorem escape_and_outside_click_clear:
  assumes "isOpen s" and "filteredOptions (options p) (query s) = Inr fo"
  shows "dispatch p s (KeyDown ''Escape'') =
           Inr (s\<lparr>query := Str [], isOpen := False, focusedOptionIndex := 0\<rparr>)
       \<and> dispatch p s (Click Outside) =
           Inr (s\<lparr>query := Str [], isOpen := False, focusedOptionIndex := 0\<rparr>)
       \<and> onSelectCalls (s\<lparr>query := Str [], isOpen := False, focusedOptionIndex := 0\<rparr>) =
           onSelectCalls s"
  using assms dispatch_Escape [OF assms(2)] dispatch_Click_Outside [OF assms(2)] by simp

theorem escape_and_outside_click_clear_witness:
  "isOpen \<lparr>query = Str ''C'', isOpen = True, focusedOptionIndex = 0, onSelectCalls = []\<rparr>
   \<and> filteredOptions (options abc)
        (query \<lparr>query = Str ''C'', isOpen = True, focusedOptionIndex = 0,
                onSelectCalls = []\<rparr>) = Inr [''C'']
   \<and> dispatch abc \<lparr>query = Str ''C'', isOpen = True, focusedOptionIndex = 0,
                     onSelectCalls = []\<rparr> (KeyDown ''Escape'') = Inr initial
   \<and> dispatch abc \<lparr>query = Str ''C'', isOpen = True, focusedOptionIndex = 0,
                     onSelectCalls = []\<rparr> (Click Outside) = Inr initial"
proof -
  let ?s = "\<lparr>query = Str ''C'', isOpen = True, focusedOptionIndex = 0, onSelectCalls = []\<rparr>"
  have o: "isOpen ?s" by simp
  have f: "filteredOptions (options abc) (query ?s) = Inr [''C'']"
    by (simp add: filteredOptions_abc_C)
  from escape_and_outside_click_clear [OF o f] o f show ?thesis
    by (simp add: initial_def)
qed

section \<open>No matching option\<close>

lemma notfound_rendered:
  assumes "isOpen s" and "query s \<noteq> Str []"
    and "filteredOptions (options p) (query s) = Inr []"
  shows "render p s = Inr (Some (NotFound (notfound p)))"
  using assms by (simp add: render_def panel_def)

text \<open>
  C5. With the single option \<open>Kerala\<close> and the query \<open>xyz\<close> the filtered list is empty and
  the open panel shows the \<open>notfound\<close> text. \<open>Enter\<close> in that state is not without
  effect: it closes the dropdown, stores \<open>undefined\<close> in \<open>query\<close> and calls \<open>onSelect\<close>
  with \<open>undefined\<close>, and the next render raises a \<open>TypeError\<close>.
\<close>

theorem enter_on_notfound:
  "run kerala initial [Click Input, Change ''xyz''] =
   Inr \<lparr>query = Str ''xyz'', isOpen = True, focusedOptionIndex = 0, onSelectCalls = []\<rparr>
   \<and> render kerala \<lparr>query = Str ''xyz'', isOpen = True, focusedOptionIndex = 0,
                      onSelectCalls = []\<rparr> = Inr (Some (NotFound ''notfound''))
   \<and> dispatch kerala \<lparr>query = Str ''xyz'', isOpen = True, focusedOptionIndex = 0,
                        onSelectCalls = []\<rparr> (KeyDown ''Enter'') =
       Inr \<lparr>query = Undefined, isOpen = False, focusedOptionIndex = 0,
            onSelectCalls = [Undefined]\<rparr>
   \<and> render kerala \<lparr>query = Undefined, isOpen = False, focusedOptionIndex = 0,
                      onSelectCalls = [Undefined]\<rparr> = Inl TypeError"
proof -
  have e: "filteredOptions (options kerala) (Str []) = Inr [''Kerala'']"
    and u: "filteredOptions (options kerala) Undefined = Inl TypeError"
    and d: "\<not> disabled kerala" and n: "notfound kerala = ''notfound''"
    by (simp_all add: filteredOptions_def kerala_def)
  show ?thesis
    by (simp add: initial_def dispatch_def e u d n filteredOptions_kerala_xyz step_def
        elementHandlers_def handler_defs setter_defs elementAt_def render_def panel_def)
qed

section \<open>Resetting the focused index\<close>

text \<open>
  Typing sets the focused index to 0. A transition that closes the dropdown and is not a
  selection sets it to 0. A transition that opens the dropdown without typing keeps it.
\<close>

lemma focus_after_transition:
  assumes "dispatch p s ev = Inr s'"
  shows "((\<exists>v. ev = Change v) \<and> \<not> disabled p \<longrightarrow> focusedOptionIndex s' = 0)
       \<and> (isOpen s \<and> \<not> isOpen s' \<and> ev \<noteq> KeyDown ''Enter'' \<and> (\<forall>i. ev \<noteq> Click (Option i))
            \<longrightarrow> focusedOptionIndex s' = 0)
       \<and> (\<not> isOpen s \<and> isOpen s' \<and> (\<forall>v. ev \<noteq> Change v)
            \<longrightarrow> focusedOptionIndex s' = focusedOptionIndex s)"
proof -
  from assms obtain fo where fo: "filteredOptions (options p) (query s) = Inr fo"
    and s': "s' = step p fo s ev"
    by (auto simp: dispatch_def split: sum.splits)
  show ?thesis
  proof (cases ev)
    case (Change v)
    then show ?thesis
      by (simp add: s' step_def elementHandlers_def handler_defs setter_defs)
  next
    case (Click t)
    then show ?thesis
      by (cases t; cases "isOpen s"; cases "disabled p")
        (simp_all add: s' step_def elementHandlers_def handler_defs setter_defs)
  next
    case (KeyDown k)
    then show ?thesis
      by (cases "isOpen s")
        (simp_all add: s' step_def elementHandlers_def handler_defs setter_defs)
  next
    case Focus
    then show ?thesis
      by (simp add: s' step_def elementHandlers_def)
  qed
qed

text \<open>
  While no option is selected, the focused index of a closed dropdown is 0, so that
  every transition that opens or closes the dropdown, and every typing, ends with the
  focused index 0. Selections are the only cause of anything else.
\<close>

lemma closed_focus_step:
  assumes "dispatch p s ev = Inr s'"
    and "ev \<noteq> KeyDown ''Enter''" and "\<And>i. ev \<noteq> Click (Option i)"
    and "\<not> isOpen s \<Longrightarrow> focusedOptionIndex s = 0"
    and "\<not> isOpen s'"
  shows "focusedOptionIndex s' = 0"
proof (cases "isOpen s")
  case True
  with focus_after_transition [OF assms(1)] assms(2,3,5) show ?thesis by blast
next
  case False
  from assms(1) obtain fo where fo: "filteredOptions (options p) (query s) = Inr fo"
    and s': "s' = step p fo s ev"
    by (auto simp: dispatch_def split: sum.splits)
  show ?thesis
  proof (cases ev)
    case (Change v)
    with False assms(4,5) show ?thesis
      by (cases "disabled p")
        (simp_all add: s' step_def elementHandlers_def handler_defs setter_defs)
  next
    case (Click t)
    with False assms(3,4,5) show ?thesis
      by (cases t; cases "disabled p")
        (simp_all add: s' step_def elementHandlers_def handler_defs setter_defs panel_def)
  next
    case (KeyDown k)
    with False assms(4) show ?thesis
      by (simp add: s' step_def elementHandlers_def handler_defs setter_defs)
  next
    case Focus
    with False assms(4) show ?thesis
      by (simp add: s' step_def elementHandlers_def)
  qed
qed

lemma closed_focus_run:
  assumes "run p s evs = Inr s'"
    and "\<forall>ev \<in> set evs. ev \<noteq> KeyDown ''Enter'' \<and> (\<forall>i. ev \<noteq> Click (Option i))"
    and "\<not> isOpen s \<Longrightarrow> focusedOptionIndex s = 0"
    and "\<not> isOpen s'"
  shows "focusedOptionIndex s' = 0"
  using assms
proof (induction evs arbitrary: s)
  case Nil
  then show ?case by simp
next
  case (Cons ev evs)
  from Cons.prems(1) obtain t where t: "dispatch p s ev = Inr t"
    and r: "run p t evs = Inr s'"
    by (auto split: sum.splits)
  have "\<not> isOpen t \<Longrightarrow> focusedOptionIndex t = 0"
    using closed_focus_step [OF t] Cons.prems(2,3) by simp
  with Cons.IH [OF r] Cons.prems(2,4) show ?case by simp
qed

lemma focus_reset_without_selection:
  assumes "run p initial evs = Inr s" and "dispatch p s ev = Inr s'"
    and "\<forall>e \<in> set (evs @ [ev]). e \<noteq> KeyDown ''Enter'' \<and> (\<forall>i. e \<noteq> Click (Option i))"
    and "((\<exists>v. ev = Change v) \<and> \<not> disabled p) \<or> isOpen s \<noteq> isOpen s'"
  shows "focusedOptionIndex s' = 0"
proof -
  have c: "\<not> isOpen s \<Longrightarrow> focusedOptionIndex s = 0"
    using closed_focus_run [OF assms(1)] assms(3) by (simp add: initial_def)
  have ns: "ev \<noteq> KeyDown ''Enter''" "\<And>i. ev \<noteq> Click (Option i)"
    using assms(3) by simp_all
  from assms(4) show ?thesis
  proof
    assume "(\<exists>v. ev = Change v) \<and> \<not> disabled p"
    with focus_after_transition [OF assms(2)] show ?thesis by blast
  next
    assume d: "isOpen s \<noteq> isOpen s'"
    show ?thesis
    proof (cases "isOpen s'")
      case False
      with closed_focus_step [OF assms(2) ns c] show ?thesis by simp
    next
      case True
      with d have cl: "\<not> isOpen s" by simp
      show ?thesis
      proof (cases "\<exists>v. ev = Change v")
        case True
        then obtain v where v: "ev = Change v" by blast
        from assms(2) obtain fo where fo: "filteredOptions (options p) (query s) = Inr fo"
          and s': "s' = step p fo s ev"
          by (auto simp: dispatch_def split: sum.splits)
        from v cl \<open>isOpen s'\<close> show ?thesis
          by (cases "disabled p")
            (simp_all add: s' step_def elementHandlers_def handler_defs setter_defs)
      next
        case False
        with focus_after_transition [OF assms(2)] cl \<open>isOpen s'\<close> c show ?thesis by simp
      qed
    qed
  qed
qed

text \<open>
  C6. Not every transition that opens or closes the dropdown leaves the focused index
  at 0. From the initial state over \<open>A, B, C\<close>, a click on the input and two presses of
  \<open>ArrowDown\<close> give focused index 2; \<open>Enter\<close> then closes the dropdown with the index
  still 2 (\<open>handleSelectOption\<close> has no reset), and the click on the input that reopens it
  finds the 2.
\<close>

theorem selection_keeps_focus_index:
  "run abc initial [Click Input, KeyDown ''ArrowDown'', KeyDown ''ArrowDown''] =
     Inr \<lparr>query = Str [], isOpen = True, focusedOptionIndex = 2, onSelectCalls = []\<rparr>
   \<and> dispatch abc
        \<lparr>query = Str [], isOpen = True, focusedOptionIndex = 2, onSelectCalls = []\<rparr>
        (KeyDown ''Enter'') =
       Inr \<lparr>query = Str ''C'', isOpen = False, focusedOptionIndex = 2,
            onSelectCalls = [Str ''C'']\<rparr>
   \<and> dispatch abc
        \<lparr>query = Str ''C'', isOpen = False, focusedOptionIndex = 2,
         onSelectCalls = [Str ''C'']\<rparr>
        (Click Input) =
       Inr \<lparr>query = Str ''C'', isOpen = True, focusedOptionIndex = 2,
            onSelectCalls = [Str ''C'']\<rparr>"
  by (simp add: initial_def dispatch_def filteredOptions_abc_empty filteredOptions_abc_C
      step_def elementHandlers_def handler_defs setter_defs elementAt_def)
    (simp add: abc_def)

section \<open>Arrow keys\<close>

text \<open>
  C7. In every open state with filtered list \<open>fo\<close>, \<open>ArrowDown\<close> adds 1 to the focused
  index exactly when it is below \<open>length fo - 1\<close> and otherwise changes nothing, and
  \<open>ArrowUp\<close> subtracts 1 exactly when it is above 0 and otherwise changes nothing. In
  particular, from focused index 0 over a list of three options, two presses of
  \<open>ArrowDown\<close> give 2 and a third leaves it at 2.
\<close>

theorem arrow_keys_move_focus:
  assumes "isOpen s" and "filteredOptions (options p) (query s) = Inr fo"
  shows "dispatch p s (KeyDown ''ArrowDown'') =
           Inr (if focusedOptionIndex s < int (length fo) - 1
                then s\<lparr>focusedOptionIndex := focusedOptionIndex s + 1\<rparr> else s)
       \<and> dispatch p s (KeyDown ''ArrowUp'') =
           Inr (if focusedOptionIndex s > 0
                then s\<lparr>focusedOptionIndex := focusedOptionIndex s - 1\<rparr> else s)
       \<and> (length fo = 3 \<and> focusedOptionIndex s = 0 \<longrightarrow>
            run p s [KeyDown ''ArrowDown'', KeyDown ''ArrowDown''] =
              Inr (s\<lparr>focusedOptionIndex := 2\<rparr>)
          \<and> run p s [KeyDown ''ArrowDown'', KeyDown ''ArrowDown'', KeyDown ''ArrowDown''] =
              Inr (s\<lparr>focusedOptionIndex := 2\<rparr>))"
proof -
  have down: "dispatch p t (KeyDown ''ArrowDown'') =
           Inr (if focusedOptionIndex t < int (length fo) - 1
                then t\<lparr>focusedOptionIndex := focusedOptionIndex t + 1\<rparr> else t)"
    if "isOpen t" and "query t = query s" for t
    using that dispatch_ArrowDown [of p t fo] assms(2) by simp
  have up: "dispatch p s (KeyDown ''ArrowUp'') =
           Inr (if focusedOptionIndex s > 0
                then s\<lparr>focusedOptionIndex := focusedOptionIndex s - 1\<rparr> else s)"
    using dispatch_ArrowUp [OF assms(2)] assms(1) by simp
  have three: "run p s [KeyDown ''ArrowDown'', KeyDown ''ArrowDown''] =
              Inr (s\<lparr>focusedOptionIndex := 2\<rparr>)
          \<and> run p s [KeyDown ''ArrowDown'', KeyDown ''ArrowDown'', KeyDown ''ArrowDown''] =
              Inr (s\<lparr>focusedOptionIndex := 2\<rparr>)"
    if "length fo = 3" and "focusedOptionIndex s = 0"
    using that assms(1) by (simp add: down)
  from down [OF assms(1) refl] up three show ?thesis by blast
qed

theorem arrow_keys_move_focus_witness:
  "isOpen \<lparr>query = Str [], isOpen = True, focusedOptionIndex = 0, onSelectCalls = []\<rparr>
   \<and> filteredOptions (options abc)
        (query \<lparr>query = Str [], isOpen = True, focusedOptionIndex = 0,
                onSelectCalls = []\<rparr>) = Inr [''A'', ''B'', ''C'']
   \<and> run abc \<lparr>query = Str [], isOpen = True, focusedOptionIndex = 0, onSelectCalls = []\<rparr>
        [KeyDown ''ArrowDown'', KeyDown ''ArrowDown''] =
       Inr \<lparr>query = Str [], isOpen = True, focusedOptionIndex = 2, onSelectCalls = []\<rparr>
   \<and> run abc \<lparr>query = Str [], isOpen = True, focusedOptionIndex = 0, onSelectCalls = []\<rparr>
        [KeyDown ''ArrowDown'', KeyDown ''ArrowDown'', KeyDown ''ArrowDown''] =
       Inr \<lparr>query = Str [], isOpen = True, focusedOptionIndex = 2, onSelectCalls = []\<rparr>
   \<and> dispatch abc
        \<lparr>query = Str [], isOpen = True, focusedOptionIndex = 0, onSelectCalls = []\<rparr>
        (KeyDown ''ArrowUp'') =
       Inr \<lparr>query = Str [], isOpen = True, focusedOptionIndex = 0, onSelectCalls = []\<rparr>"
proof -
  let ?s = "\<lparr>query = Str [], isOpen = True, focusedOptionIndex = 0, onSelectCalls = []\<rparr>"
  have o: "isOpen ?s" by simp
  have f: "filteredOptions (options abc) (query ?s) = Inr [''A'', ''B'', ''C'']"
    by (simp add: filteredOptions_abc_empty)
  from arrow_keys_move_focus [OF o f] o f show ?thesis
    by (simp del: run.simps)
qed

section \<open>Clicking the input while open\<close>

lemma filteredOptions_districts_k:
  "filteredOptions (options districts) (Str ''k'') = Inr [''Kerala'', ''Kochi'', ''Kottayam'']"
  by (simp add: filteredOptions_def districts_def optionMatches_def toLowerCase_def
      lowerChar_def isSpace_def)

text \<open>
  C8. In every open state (of a component whose input is enabled and whose render
  succeeded), a click on the input closes the dropdown and sets the focused index to 0,
  whatever it was, and \<open>query\<close> stays as it was; \<open>Escape\<close> in the same state also empties
  \<open>query\<close>.
\<close>

theorem input_click_closes_keeping_query:
  assumes "isOpen s" and "\<not> disabled p"
    and "filteredOptions (options p) (query s) = Inr fo"
  shows "dispatch p s (Click Input) = Inr (s\<lparr>isOpen := False, focusedOptionIndex := 0\<rparr>)
       \<and> query (s\<lparr>isOpen := False, focusedOptionIndex := 0\<rparr>) = query s
       \<and> dispatch p s (KeyDown ''Escape'') =
           Inr (s\<lparr>query := Str [], isOpen := False, focusedOptionIndex := 0\<rparr>)"
  using assms(1) dispatch_Click_Input [OF assms(3) assms(2)] dispatch_Escape [OF assms(3)]
  by simp

theorem input_click_closes_keeping_query_witness:
  "isOpen \<lparr>query = Str ''k'', isOpen = True, focusedOptionIndex = 1, onSelectCalls = []\<rparr>
   \<and> \<not> disabled districts
   \<and> filteredOptions (options districts)
        (query \<lparr>query = Str ''k'', isOpen = True, focusedOptionIndex = 1,
                onSelectCalls = []\<rparr>) = Inr [''Kerala'', ''Kochi'', ''Kottayam'']
   \<and> dispatch districts
        \<lparr>query = Str ''k'', isOpen = True, focusedOptionIndex = 1, onSelectCalls = []\<rparr>
        (Click Input) =
       Inr \<lparr>query = Str ''k'', isOpen = False, focusedOptionIndex = 0, onSelectCalls = []\<rparr>
   \<and> dispatch districts
        \<lparr>query = Str ''k'', isOpen = True, focusedOptionIndex = 1, onSelectCalls = []\<rparr>
        (KeyDown ''Escape'') =
       Inr \<lparr>query = Str [], isOpen = False, focusedOptionIndex = 0, onSelectCalls = []\<rparr>"
proof -
  let ?s = "\<lparr>query = Str ''k'', isOpen = True, focusedOptionIndex = 1, onSelectCalls = []\<rparr>"
  have o: "isOpen ?s" by simp
  have d: "\<not> disabled districts" by (simp add: districts_def)
  have f: "filteredOptions (options districts) (query ?s)
           = Inr [''Kerala'', ''Kochi'', ''Kottayam'']"
    by (simp add: filteredOptions_districts_k)
  from input_click_closes_keeping_query [OF o d f] o d f show ?thesis
    by simp
qed

text \<open>
  The hypotheses hold of every open state that user events reach from the initial
  state.
\<close>

lemma input_click_reachable:
  assumes "run p initial evs = Inr s" and "isOpen s"
  shows "dispatch p s (Click Input) = Inr (s\<lparr>isOpen := False, focusedOptionIndex := 0\<rparr>)"
proof -
  from reachable_open_live [OF assms] obtain fo
    where d: "\<not> disabled p" and f: "filteredOptions (options p) (query s) = Inr fo"
    by blast
  from dispatch_Click_Input [OF f d] assms(2) show ?thesis
    by simp
qed

section \<open>A disabled input\<close>

lemma closed_disabled_stays_closed:
  assumes "disabled p" and "\<not> isOpen s"
  shows "\<not> isOpen (step p fo s ev)"
proof (cases ev)
  case (Change v)
  with assms show ?thesis by (simp add: step_def elementHandlers_def)
next
  case (Click t)
  with assms show ?thesis
    by (cases t)
      (simp_all add: step_def elementHandlers_def handler_defs setter_defs panel_def)
next
  case (KeyDown k)
  with assms show ?thesis
    by (simp add: step_def handler_defs setter_defs)
next
  case Focus
  with assms show ?thesis by (simp add: step_def elementHandlers_def)
qed

lemma disabled_dispatch_initial:
  assumes "disabled p"
  shows "dispatch p initial ev = Inr initial"
proof -
  have f: "filteredOptions (options p) (query initial) = Inr (options p)"
    by (simp add: filteredOptions_def initial_def)
  have "step p (options p) initial ev = initial"
  proof (cases ev)
    case (Change v)
    with assms show ?thesis by (simp add: step_def elementHandlers_def)
  next
    case (Click t)
    with assms show ?thesis
      by (cases t)
        (simp_all add: step_def elementHandlers_def handler_defs setter_defs panel_def
          initial_def)
  next
    case (KeyDown k)
    with assms show ?thesis
      by (simp add: step_def handler_defs setter_defs initial_def)
  next
    case Focus
    with assms show ?thesis by (simp add: step_def elementHandlers_def)
  qed
  with f show ?thesis by (simp add: dispatch_def)
qed

text \<open>
  C9. When \<open>disabled\<close> is true, no event opens the dropdown: from every closed state
  (whose render succeeded) every event, among them focus, a click on the input, typing
  and any key press, is handled and leads to a closed state; and every sequence of
  events from the initial state ends in the initial state, which is closed.
\<close>

theorem disabled_never_opens:
  assumes "disabled p"
  shows "(\<not> isOpen s \<and> filteredOptions (options p) (query s) = Inr fo \<longrightarrow>
            (\<exists>s'. dispatch p s ev = Inr s' \<and> \<not> isOpen s'))
       \<and> run p initial evs = Inr initial"
proof -
  have "run p initial evs = Inr initial"
    by (induction evs) (simp_all add: disabled_dispatch_initial [OF assms])
  moreover have "\<exists>s'. dispatch p s ev = Inr s' \<and> \<not> isOpen s'"
    if "\<not> isOpen s" and "filteredOptions (options p) (query s) = Inr fo"
    using that closed_disabled_stays_closed [OF assms that(1)] by (simp add: dispatch_def)
  ultimately show ?thesis by blast
qed

theorem disabled_never_opens_witness:
  "disabled off
   \<and> dispatch off initial (Click Input) = Inr initial
   \<and> dispatch off initial (Change ''a'') = Inr initial
   \<and> dispatch off initial Focus = Inr initial
   \<and> run off initial [Focus, Click Input, Change ''a'', KeyDown ''ArrowDown''] = Inr initial
   \<and> \<not> isOpen initial"
proof -
  have d: "disabled off" by (simp add: off_def)
  from disabled_never_opens [OF d, of initial "options off" _
      "[Focus, Click Input, Change ''a'', KeyDown ''ArrowDown'']"]
    disabled_dispatch_initial [OF d] d
  show ?thesis by (simp add: initial_def del: run.simps)
qed

section \<open>Typing while closed\<close>

text \<open>
  C10. In every closed state (whose render succeeded) of a component that is not
  disabled, a change of the input text to \<open>v\<close> opens the dropdown, sets \<open>query\<close> to \<open>v\<close>
  and sets the focused index to 0.
\<close>

theorem typing_opens_closed_dropdown:
  assumes "\<not> isOpen s" and "\<not> disabled p"
    and "filteredOptions (options p) (query s) = Inr fo"
  shows "dispatch p s (Change v) =
           Inr (s\<lparr>query := Str v, isOpen := True, focusedOptionIndex := 0\<rparr>)"
  using assms(1) dispatch_Change [OF assms(3) assms(2)] by simp

theorem typing_opens_closed_dropdown_witness:
  "\<not> isOpen initial \<and> \<not> disabled kerala
   \<and> filteredOptions (options kerala) (query initial) = Inr [''Kerala'']
   \<and> dispatch kerala initial (Change ''xyz'') =
       Inr \<lparr>query = Str ''xyz'', isOpen = True, focusedOptionIndex = 0, onSelectCalls = []\<rparr>"
proof -
  have o: "\<not> isOpen initial" by (simp add: initial_def)
  have d: "\<not> disabled kerala" by (simp add: kerala_def)
  have f: "filteredOptions (options kerala) (query initial) = Inr [''Kerala'']"
    by (simp add: filteredOptions_def kerala_def initial_def)
  from typing_opens_closed_dropdown [OF o d f, of "''xyz''"] o d f show ?thesis
    by (simp add: initial_def)
qed

end
